theory Spec2Isabelle
  imports Main "HOL-Library.AList" "HOL-Library.Multiset" "HOL-Library.Word"
begin

section \<open>Sensor emulator adapter: data model\<close>

text \<open>
  The values the adapter handles are the ones \<^verbatim>\<open>encoding/json\<close> decodes into an
  \<^verbatim>\<open>interface{}\<close>: nil, bool, float64, string, \<^verbatim>\<open>[]interface{}\<close> and
  \<^verbatim>\<open>map[string]interface{}\<close>. The adapter never computes with a number, so the carrier
  of numbers is the type parameter \<open>'n\<close>.

  A Go map is modelled by the list of its entries. The order of the list is the order in
  which a \<^verbatim>\<open>range\<close> statement visits the entries; Go leaves that order open, and so every
  statement below holds for every order. The keys of a Go map are pairwise distinct
  (\<open>isGoMap\<close>); an assignment \<^verbatim>\<open>m[k] = v\<close> is \<open>AList.update k v m\<close>.
\<close>

datatype 'n val =
    VNil
  | VBool bool
  | VNum 'n
  | VString string
  | VArray "'n val list"
  | VMap "(string \<times> 'n val) list"

type_synonym 'n gomap = "(string \<times> 'n val) list"

definition isGoMap :: "(string \<times> 'a) list \<Rightarrow> bool" where
  "isGoMap m = distinct (map fst m)"

text \<open>
  Errors are values. \<open>LibError\<close> is an error produced by a library or by code outside this
  file (JSON, URL, HTTP, the base adapter); the other three are the errors the adapter
  creates itself. A function that can dereference a nil pointer returns a \<open>res\<close>, where
  \<open>Panic\<close> is the run-time panic.
\<close>

datatype err =
    LibError string
  | SensorURLUndefined
  | PathDoesNotExist string
  | HTTPStatus string

datatype 'a res = Val 'a | Fail err | Panic

datatype url = URL string

record config =
  SensorURL :: string
  UpdatePeriod :: "64 word"

text \<open>
  What \<^verbatim>\<open>json.Unmarshal(configJSON, &cfg)\<close> stores: the fields to which the document
  gives a value. A field the document does not set keeps the value \<open>cfg\<close> held before
  the call.
\<close>

record cfgFields =
  fSensorURL :: "string option"
  fUpdatePeriod :: "64 word option"

definition unmarshalInto :: "cfgFields \<Rightarrow> config \<Rightarrow> config" where
  "unmarshalInto present cfg =
     \<lparr>SensorURL = (case fSensorURL present of None \<Rightarrow> SensorURL cfg | Some s \<Rightarrow> s),
      UpdatePeriod = (case fUpdatePeriod present of None \<Rightarrow> UpdatePeriod cfg | Some p \<Rightarrow> p)\<rparr>"

text \<open>
  The base adapter is declared outside the files at hand; the adapter reads and writes its
  fields \<open>name\<close> and \<open>data\<close>, and an entry of \<open>data\<close> has a field \<open>Value\<close>.
\<close>

record 'n baseData =
  Value :: "'n val"

record 'n BaseAdapter =
  name :: string
  data :: "(string \<times> 'n baseData) list"

record 'n SensorEmulatorAdapter =
  sensorURL :: "url option"
  updatePeriod :: "64 word"
  baseAdapter :: "'n BaseAdapter"

text \<open>
  The outcome of \<^verbatim>\<open>http.Get\<close> followed by \<^verbatim>\<open>ioutil.ReadAll\<close> of the body, and of
  \<^verbatim>\<open>http.Post\<close> (status code and status text).
\<close>

datatype httpGetResult = GetError err | ReadError err | Body string

datatype httpPostResult = PostError err | Response int string

text \<open>
  The library functions and the functions of the base adapter are parameters: the JSON
  decoder at its two target types, the encoder (\<^verbatim>\<open>json.Marshal\<close> returns an error on a
  value it does not support, such as a number that is not finite), \<^verbatim>\<open>url.Parse\<close>,
  \<^verbatim>\<open>ResolveReference\<close> followed by \<^verbatim>\<open>String\<close>, \<^verbatim>\<open>newBaseAdapter\<close> and the base
  adapter's \<^verbatim>\<open>setData\<close>.
\<close>

record 'n env =
  jsonUnmarshalConfig :: "string \<Rightarrow> err + cfgFields"
  jsonUnmarshal :: "string \<Rightarrow> err + 'n val"
  jsonMarshal :: "'n gomap \<Rightarrow> err + string"
  urlParse :: "string \<Rightarrow> err + url"
  resolveReference :: "url \<Rightarrow> url \<Rightarrow> string"
  newBaseAdapter :: "err + 'n BaseAdapter"
  setData :: "'n BaseAdapter \<Rightarrow> 'n gomap \<Rightarrow> err option \<times> 'n BaseAdapter"

text \<open>
  What the adapter does to the outside is recorded in a trace: the HTTP requests it
  performs, the calls of the base adapter's \<^verbatim>\<open>setData\<close> (the commit to the local store)
  and the errors it logs. Debug and info log lines are not recorded.
\<close>

datatype logmsg = CantReadData err | CantUpdateData err

datatype 'n event =
    HttpGet string
  | HttpPost string string
  | BaseSetData "'n gomap"
  | LogError logmsg

section \<open>The functions of the adapter\<close>

definition defaultUpdatePeriod :: "64 word" where
  "defaultUpdatePeriod = 500"

text \<open>\<^verbatim>\<open>strings.HasPrefix\<close> and \<^verbatim>\<open>strings.TrimPrefix\<close>.\<close>

definition HasPrefix :: "string \<Rightarrow> string \<Rightarrow> bool" where
  "HasPrefix s prefix = (length prefix \<le> length s \<and> take (length prefix) s = prefix)"

definition TrimPrefix :: "string \<Rightarrow> string \<Rightarrow> string" where
  "TrimPrefix s prefix = (if HasPrefix s prefix then drop (length prefix) s else s)"

fun parseNode :: "string \<Rightarrow> 'n val \<Rightarrow> 'n gomap" where
  "parseNode prefix (VMap m) =
     fold (\<lambda>(path, value) visData.
             fold (\<lambda>(visPath, visValue) visData. AList.update visPath visValue visData)
                  (parseNode (prefix @ ''.'' @ path) value) visData)
          m []"
| "parseNode prefix element = AList.update prefix element []"

definition convertDataToVisFormat :: "'n env \<Rightarrow> string \<Rightarrow> err + 'n gomap" where
  "convertDataToVisFormat env dataJSON =
     (case jsonUnmarshal env dataJSON of
        Inl e \<Rightarrow> Inl e
      | Inr d \<Rightarrow> Inr (parseNode ''Signal.Emulator'' d))"

definition getDataFromSensorEmulator ::
  "'n env \<Rightarrow> (string \<Rightarrow> httpGetResult) \<Rightarrow> 'n SensorEmulatorAdapter \<Rightarrow> 'n event list
     \<Rightarrow> 'n gomap res \<times> 'n event list" where
  "getDataFromSensorEmulator env httpGet adapter tr =
     (case urlParse env ''stats'' of
        Inl e \<Rightarrow> (Fail e, tr)
      | Inr path \<Rightarrow>
          (case sensorURL adapter of
             None \<Rightarrow> (Panic, tr)
           | Some u \<Rightarrow>
               (let address = resolveReference env u path;
                    tr1 = tr @ [HttpGet address]
                in case httpGet address of
                     GetError e \<Rightarrow> (Fail e, tr1)
                   | ReadError e \<Rightarrow> (Fail e, tr1)
                   | Body d \<Rightarrow>
                       (case convertDataToVisFormat env d of
                          Inl e \<Rightarrow> (Fail e, tr1)
                        | Inr visData \<Rightarrow> (Val visData, tr1)))))"

text \<open>The loop of \<^verbatim>\<open>convertVisFormatToData\<close>, which returns at the first path it rejects.\<close>

fun convertLoop :: "'n gomap \<Rightarrow> 'n gomap \<Rightarrow> err + 'n gomap" where
  "convertLoop [] sendData = Inr sendData"
| "convertLoop ((path, value) # rest) sendData =
     (if HasPrefix path ''Attribute.Emulator.''
      then convertLoop rest
             (AList.update (TrimPrefix path ''Attribute.Emulator.'') value sendData)
      else Inl (PathDoesNotExist path))"

definition convertVisFormatToData :: "'n env \<Rightarrow> 'n gomap \<Rightarrow> err + string" where
  "convertVisFormatToData env visData =
     (case convertLoop visData [] of
        Inl e \<Rightarrow> Inl e
      | Inr sendData \<Rightarrow>
          (case jsonMarshal env sendData of
             Inl e \<Rightarrow> Inl e
           | Inr dataJSON \<Rightarrow> Inr dataJSON))"

definition SetData ::
  "'n env \<Rightarrow> (string \<Rightarrow> string \<Rightarrow> httpPostResult) \<Rightarrow> 'n gomap
     \<Rightarrow> 'n SensorEmulatorAdapter \<times> 'n event list
     \<Rightarrow> unit res \<times> 'n SensorEmulatorAdapter \<times> 'n event list" where
  "SetData env httpPost visData st =
     (case st of (adapter, tr) \<Rightarrow>
       (case convertVisFormatToData env visData of
          Inl e \<Rightarrow> (Fail e, adapter, tr)
        | Inr sendData \<Rightarrow>
            (case urlParse env ''attributes/'' of
               Inl e \<Rightarrow> (Fail e, adapter, tr)
             | Inr path \<Rightarrow>
                 (case sensorURL adapter of
                    None \<Rightarrow> (Panic, adapter, tr)
                  | Some u \<Rightarrow>
                      (let address = resolveReference env u path;
                           tr1 = tr @ [HttpPost address sendData]
                       in case httpPost address sendData of
                            PostError e \<Rightarrow> (Fail e, adapter, tr1)
                          | Response code status \<Rightarrow>
                              if code \<noteq> 201 then (Fail (HTTPStatus status), adapter, tr1)
                              else (case setData env (baseAdapter adapter) visData of
                                      (r, base) \<Rightarrow>
                                        ((case r of None \<Rightarrow> Val () | Some e \<Rightarrow> Fail e),
                                         adapter\<lparr>baseAdapter := base\<rparr>,
                                         tr1 @ [BaseSetData visData])))))))"

definition IsPathPublic :: "'n SensorEmulatorAdapter \<Rightarrow> string \<Rightarrow> bool \<times> err option" where
  "IsPathPublic adapter path = (True, None)"

text \<open>The seven attribute paths the constructor creates, each with an empty entry.\<close>

definition attributePaths :: "string list" where
  "attributePaths =
     [''Attribute.Emulator.rectangle_long0'',
      ''Attribute.Emulator.rectangle_lat0'',
      ''Attribute.Emulator.rectangle_long1'',
      ''Attribute.Emulator.rectangle_lat1'',
      ''Attribute.Emulator.to_rectangle'',
      ''Attribute.Emulator.stop'',
      ''Attribute.Emulator.tire_break'']"

definition createDataMap :: "'n gomap \<Rightarrow> 'n BaseAdapter \<Rightarrow> 'n BaseAdapter" where
  "createDataMap visData base =
     fold (\<lambda>(path, value) b. b\<lparr>data := AList.update path \<lparr>Value = value\<rparr> (data b)\<rparr>)
          visData base"

definition createAttributes :: "'n BaseAdapter \<Rightarrow> 'n BaseAdapter" where
  "createAttributes base =
     fold (\<lambda>path b. b\<lparr>data := AList.update path \<lparr>Value = VNil\<rparr> (data b)\<rparr>)
          attributePaths base"

text \<open>
  The constructor. The error of \<^verbatim>\<open>url.Parse(cfg.SensorURL)\<close> is assigned to \<open>err\<close> and
  overwritten by the next statement, so a URL that does not parse leaves \<open>sensorURL\<close> nil.
  The refresh task the constructor starts is \<open>processData\<close> below.
\<close>

definition NewSensorEmulatorAdapter ::
  "'n env \<Rightarrow> (string \<Rightarrow> httpGetResult) \<Rightarrow> string \<Rightarrow> 'n event list
     \<Rightarrow> 'n SensorEmulatorAdapter res \<times> 'n event list" where
  "NewSensorEmulatorAdapter env httpGet configJSON tr =
     (case jsonUnmarshalConfig env configJSON of
        Inl e \<Rightarrow> (Fail e, tr)
      | Inr present \<Rightarrow>
          (let cfg = unmarshalInto present \<lparr>SensorURL = [], UpdatePeriod = defaultUpdatePeriod\<rparr>
           in if SensorURL cfg = [] then (Fail SensorURLUndefined, tr)
              else
                (let parsed = (case urlParse env (SensorURL cfg) of
                                 Inl e \<Rightarrow> None
                               | Inr u \<Rightarrow> Some u)
                 in case newBaseAdapter env of
                      Inl e \<Rightarrow> (Fail e, tr)
                    | Inr base \<Rightarrow>
                        (let adapter =
                               \<lparr>sensorURL = parsed,
                                updatePeriod = UpdatePeriod cfg,
                                baseAdapter = base\<lparr>name := ''SensorEmulatorAdapter''\<rparr>\<rparr>
                         in case getDataFromSensorEmulator env httpGet adapter tr of
                              (Panic, tr1) \<Rightarrow> (Panic, tr1)
                            | (Fail e, tr1) \<Rightarrow> (Fail e, tr1)
                            | (Val visData, tr1) \<Rightarrow>
                                (Val (adapter\<lparr>baseAdapter :=
                                        createAttributes
                                          (createDataMap visData (baseAdapter adapter))\<rparr>),
                                 tr1)))))"

text \<open>
  The refresh task. \<^verbatim>\<open>time.Duration(adapter.updatePeriod) * time.Millisecond\<close> is a signed
  64-bit number of nanoseconds, and \<^verbatim>\<open>time.NewTicker\<close> panics on an interval that is not
  positive. The loop never returns, so the model runs it on the ticks delivered so far:
  one entry of \<open>ticks\<close> for each tick, holding what the upstream answers at that tick.
  The result says whether the task is still in its loop.
\<close>

definition tickerInterval :: "'n SensorEmulatorAdapter \<Rightarrow> 64 word" where
  "tickerInterval adapter = updatePeriod adapter * 1000000"

datatype task = Running | Panicked

fun refreshLoop ::
  "'n env \<Rightarrow> (string \<Rightarrow> httpGetResult) list \<Rightarrow> 'n SensorEmulatorAdapter \<times> 'n event list
     \<Rightarrow> task \<times> 'n SensorEmulatorAdapter \<times> 'n event list" where
  "refreshLoop env [] (adapter, tr) = (Running, adapter, tr)"
| "refreshLoop env (httpGet # ticks) (adapter, tr) =
     (case getDataFromSensorEmulator env httpGet adapter tr of
        (Panic, tr1) \<Rightarrow> (Panicked, adapter, tr1)
      | (Fail e, tr1) \<Rightarrow>
          refreshLoop env ticks (adapter, tr1 @ [LogError (CantReadData e)])
      | (Val visData, tr1) \<Rightarrow>
          (case setData env (baseAdapter adapter) visData of
             (Some e, base) \<Rightarrow>
               refreshLoop env ticks
                 (adapter\<lparr>baseAdapter := base\<rparr>,
                  tr1 @ [BaseSetData visData, LogError (CantUpdateData e)])
           | (None, base) \<Rightarrow>
               refreshLoop env ticks
                 (adapter\<lparr>baseAdapter := base\<rparr>, tr1 @ [BaseSetData visData])))"

definition processData ::
  "'n env \<Rightarrow> (string \<Rightarrow> httpGetResult) list \<Rightarrow> 'n SensorEmulatorAdapter \<times> 'n event list
     \<Rightarrow> task \<times> 'n SensorEmulatorAdapter \<times> 'n event list" where
  "processData env ticks st =
     (if sint (tickerInterval (fst st)) \<le> 0 then (Panicked, st)
      else refreshLoop env ticks st)"

section \<open>Notions of the specification\<close>

text \<open>
  The leaves of a document: every value that is not an object, with the path that leads to
  it (the prefix and the keys on the way, joined by dots). An empty object has no leaf.
\<close>

fun leaves :: "string \<Rightarrow> 'n val \<Rightarrow> (string \<times> 'n val) list" where
  "leaves prefix (VMap m) = concat (map (\<lambda>(key, sub). leaves (prefix @ ''.'' @ key) sub) m)"
| "leaves prefix element = [(prefix, element)]"

fun isObject :: "'n val \<Rightarrow> bool" where
  "isObject (VMap m) = True"
| "isObject element = False"

text \<open>
  A document in which every object has pairwise distinct keys and no key contains a dot.
\<close>

fun plainKeys :: "'n val \<Rightarrow> bool" where
  "plainKeys (VMap m) =
     (distinct (map fst m) \<and> list_all (\<lambda>(key, sub). CHR ''.'' \<notin> set key \<and> plainKeys sub) m)"
| "plainKeys element = True"

fun isHttpGet :: "'n event \<Rightarrow> bool" where
  "isHttpGet (HttpGet address) = True"
| "isHttpGet ev = False"

section \<open>An example environment\<close>

text \<open>
  A sensor emulator at \<^verbatim>\<open>http://sensor:8800/\<close>, used to run the functions on concrete
  inputs. The decoders know the documents of the examples and reject every other text;
  the encoder stands in for \<^verbatim>\<open>json.Marshal\<close> and writes the keys only.
\<close>

definition exampleStats :: "int val" where
  "exampleStats =
     VMap [(''speed'', VNum 60),
           (''gps'', VMap [(''lat'', VNum 50), (''long'', VNum 30)]),
           (''doors'', VArray [VBool True, VBool False]),
           (''trailer'', VMap [])]"

definition exampleStatsJSON :: string where
  "exampleStatsJSON =
     ''{\"speed\":60,\"gps\":{\"lat\":50,\"long\":30},\"doors\":[true,false],\"trailer\":{}}''"

definition cfgDefaultPeriod :: string where
  "cfgDefaultPeriod = ''{\"SensorURL\":\"http://sensor:8800/\"}''"

definition cfgPeriod100 :: string where
  "cfgPeriod100 = ''{\"SensorURL\":\"http://sensor:8800/\",\"UpdatePeriod\":100}''"

definition cfgBadURL :: string where
  "cfgBadURL = ''{\"SensorURL\":\":foo\"}''"

definition cfgNoURL :: string where
  "cfgNoURL = ''{\"UpdatePeriod\":100}''"

definition cfgPeriod0 :: string where
  "cfgPeriod0 = ''{\"SensorURL\":\"http://sensor:8800/\",\"UpdatePeriod\":0}''"

definition cfgPeriodHuge :: string where
  "cfgPeriodHuge = ''{\"SensorURL\":\"http://sensor:8800/\",\"UpdatePeriod\":18446744073710}''"

text \<open>
  Modelled from the spec: the base adapter's \<^verbatim>\<open>setData\<close>, which is not among the files at
  hand. An unknown path fails the call and no entry is changed; otherwise every value is
  overwritten.
\<close>

definition exampleSetData ::
  "'n BaseAdapter \<Rightarrow> 'n gomap \<Rightarrow> err option \<times> 'n BaseAdapter" where
  "exampleSetData base updates =
     (case filter (\<lambda>(path, value). path \<notin> fst ` set (data base)) updates of
        (path, value) # rest \<Rightarrow> (Some (LibError (''path not found: '' @ path)), base)
      | [] \<Rightarrow>
          (None,
           base\<lparr>data := fold (\<lambda>(path, value) d. AList.update path \<lparr>Value = value\<rparr> d)
                               updates (data base)\<rparr>))"

definition exampleEnv :: "int env" where
  "exampleEnv =
     \<lparr>jsonUnmarshalConfig = (\<lambda>text.
        if text = cfgDefaultPeriod
          then Inr \<lparr>fSensorURL = Some ''http://sensor:8800/'', fUpdatePeriod = None\<rparr>
        else if text = cfgPeriod100
          then Inr \<lparr>fSensorURL = Some ''http://sensor:8800/'', fUpdatePeriod = Some 100\<rparr>
        else if text = cfgBadURL
          then Inr \<lparr>fSensorURL = Some '':foo'', fUpdatePeriod = None\<rparr>
        else if text = cfgNoURL
          then Inr \<lparr>fSensorURL = None, fUpdatePeriod = Some 100\<rparr>
        else if text = cfgPeriod0
          then Inr \<lparr>fSensorURL = Some ''http://sensor:8800/'', fUpdatePeriod = Some 0\<rparr>
        else if text = cfgPeriodHuge
          then Inr \<lparr>fSensorURL = Some ''http://sensor:8800/'',
                    fUpdatePeriod = Some 18446744073710\<rparr>
        else Inl (LibError ''unexpected end of JSON input'')),
      jsonUnmarshal = (\<lambda>text.
        if text = exampleStatsJSON then Inr exampleStats
        else Inl (LibError ''unexpected end of JSON input'')),
      jsonMarshal = (\<lambda>m. Inr (concat (map (\<lambda>(key, value). key @ '';'') m))),
      urlParse = (\<lambda>rawURL.
        if rawURL = '':foo'' then Inl (LibError ''missing protocol scheme'')
        else Inr (URL rawURL)),
      resolveReference = (\<lambda>base ref. case base of URL b \<Rightarrow> (case ref of URL r \<Rightarrow> b @ r)),
      newBaseAdapter = Inr \<lparr>name = [], data = []\<rparr>,
      setData = exampleSetData\<rparr>"

definition exampleGet :: "string \<Rightarrow> httpGetResult" where
  "exampleGet address =
     (if address = ''http://sensor:8800/stats'' then Body exampleStatsJSON
      else GetError (LibError ''connection refused''))"

definition examplePost :: "string \<Rightarrow> string \<Rightarrow> httpPostResult" where
  "examplePost address body =
     (if address = ''http://sensor:8800/attributes/'' then Response 201 ''201 Created''
      else Response 404 ''404 Not Found'')"

definition exampleAdapter :: "int SensorEmulatorAdapter" where
  "exampleAdapter =
     \<lparr>sensorURL = Some (URL ''http://sensor:8800/''),
      updatePeriod = 500,
      baseAdapter = \<lparr>name = ''SensorEmulatorAdapter'',
                     data = [(''Attribute.Emulator.stop'', \<lparr>Value = VNil\<rparr>)]\<rparr>\<rparr>"
definition exampleConstructed :: "64 word \<Rightarrow> int SensorEmulatorAdapter" where
  "exampleConstructed period =
     \<lparr>sensorURL = Some (URL ''http://sensor:8800/''),
      updatePeriod = period,
      baseAdapter =
        \<lparr>name = ''SensorEmulatorAdapter'',
         data = [(''Signal.Emulator.speed'', \<lparr>Value = VNum 60\<rparr>),
                 (''Signal.Emulator.gps.lat'', \<lparr>Value = VNum 50\<rparr>),
                 (''Signal.Emulator.gps.long'', \<lparr>Value = VNum 30\<rparr>),
                 (''Signal.Emulator.doors'', \<lparr>Value = VArray [VBool True, VBool False]\<rparr>),
                 (''Attribute.Emulator.rectangle_long0'', \<lparr>Value = VNil\<rparr>),
                 (''Attribute.Emulator.rectangle_lat0'', \<lparr>Value = VNil\<rparr>),
                 (''Attribute.Emulator.rectangle_long1'', \<lparr>Value = VNil\<rparr>),
                 (''Attribute.Emulator.rectangle_lat1'', \<lparr>Value = VNil\<rparr>),
                 (''Attribute.Emulator.to_rectangle'', \<lparr>Value = VNil\<rparr>),
                 (''Attribute.Emulator.stop'', \<lparr>Value = VNil\<rparr>),
                 (''Attribute.Emulator.tire_break'', \<lparr>Value = VNil\<rparr>)]\<rparr>\<rparr>"

definition exampleDown :: "string \<Rightarrow> httpGetResult" where
  "exampleDown address = GetError (LibError ''connection refused'')"

definition exampleWrite :: "int gomap" where
  "exampleWrite = [(''Attribute.Emulator.stop'', VBool True)]"

text \<open>
  An environment whose numbers may be NaN. Its encoder does what \<^verbatim>\<open>json.Marshal\<close> does on
  a map that holds NaN: it returns an error. Its decoders reject every text.
\<close>

datatype float64 = Finite int | NaN

fun unsupported :: "float64 val \<Rightarrow> bool" where
  "unsupported (VNum NaN) = True"
| "unsupported (VArray xs) = list_ex unsupported xs"
| "unsupported (VMap m) = list_ex (\<lambda>(key, sub). unsupported sub) m"
| "unsupported element = False"

definition exampleEnvFloat :: "float64 env" where
  "exampleEnvFloat =
     \<lparr>jsonUnmarshalConfig = (\<lambda>text. Inl (LibError ''unexpected end of JSON input'')),
      jsonUnmarshal = (\<lambda>text. Inl (LibError ''unexpected end of JSON input'')),
      jsonMarshal = (\<lambda>m.
        if list_ex (\<lambda>(key, value). unsupported value) m
          then Inl (LibError ''json: unsupported value: NaN'')
        else Inr (concat (map (\<lambda>(key, value). key @ '';'') m))),
      urlParse = (\<lambda>rawURL. Inr (URL rawURL)),
      resolveReference = (\<lambda>base ref. case base of URL b \<Rightarrow> (case ref of URL r \<Rightarrow> b @ r)),
      newBaseAdapter = Inr \<lparr>name = [], data = []\<rparr>,
      setData = exampleSetData\<rparr>"

definition exampleAdapterFloat :: "float64 SensorEmulatorAdapter" where
  "exampleAdapterFloat =
     \<lparr>sensorURL = Some (URL ''http://sensor:8800/''),
      updatePeriod = 500,
      baseAdapter = \<lparr>name = ''SensorEmulatorAdapter'',
                     data = [(''Attribute.Emulator.stop'', \<lparr>Value = VNil\<rparr>)]\<rparr>\<rparr>"

section \<open>Go maps built by assignment\<close>

lemma map_of_rev_distinct: "distinct (map fst xs) \<Longrightarrow> map_of (rev xs) = map_of xs"
  by (subst map_of_inject_set) (simp_all add: rev_map[symmetric])

lemma update_fresh: "k \<notin> fst ` set al \<Longrightarrow> AList.update k v al = al @ [(k, v)]"
  by (induction al) auto

lemma merge_fresh:
  "distinct (map fst (acc @ sub)) \<Longrightarrow>
   fold (\<lambda>(k, v) visData. AList.update k v visData) sub acc = acc @ sub"
proof (induction sub arbitrary: acc)
  case Nil
  then show ?case by simp
next
  case (Cons e sub)
  obtain k v where e: "e = (k, v)" by (cases e)
  from Cons.prems e have fresh: "k \<notin> fst ` set acc" by auto
  from Cons.prems e have "distinct (map fst ((acc @ [(k, v)]) @ sub))" by auto
  from Cons.IH[OF this] show ?case using e fresh by (simp add: update_fresh)
qed

lemma merge_keys:
  "fst ` set (fold (\<lambda>(k, v) visData. AList.update k v visData) sub acc)
     = fst ` set acc \<union> fst ` set sub"
  by (induction sub arbitrary: acc) (simp_all add: dom_update case_prod_beta Un_assoc)

lemma merge_distinct:
  "distinct (map fst acc) \<Longrightarrow>
   distinct (map fst (fold (\<lambda>(k, v) visData. AList.update k v visData) sub acc))"
  by (induction sub arbitrary: acc) (simp_all add: distinct_update case_prod_beta)

lemma merge_map_of:
  "map_of (fold (\<lambda>(k, v) visData. AList.update k v visData) sub acc)
     = map_of acc ++ map_of (rev sub)"
  by (induction sub arbitrary: acc) (auto simp: update_conv')

lemma fold_merge_distinct:
  "distinct (map fst acc) \<Longrightarrow>
   distinct (map fst (fold (\<lambda>(path, value) visData.
       fold (\<lambda>(k, v) visData. AList.update k v visData) (P path value) visData) m acc))"
  by (induction m arbitrary: acc) (simp_all add: merge_distinct case_prod_beta)

lemma parseNode_distinct: "distinct (map fst (parseNode p n))"
  by (cases n) (simp_all add: fold_merge_distinct)

lemma fold_merge_keys:
  "fst ` set (fold (\<lambda>(path, value) visData.
       fold (\<lambda>(k, v) visData. AList.update k v visData) (P path value) visData) m acc)
     = fst ` set acc \<union> (\<Union>(path, value) \<in> set m. fst ` set (P path value))"
  by (induction m arbitrary: acc) (simp_all add: merge_keys case_prod_beta Un_assoc)


lemma fold_merge_map_of:
  "(\<forall>(path, value) \<in> set m. distinct (map fst (P path value))) \<Longrightarrow>
   map_of (fold (\<lambda>(path, value) visData.
       fold (\<lambda>(k, v) visData. AList.update k v visData) (P path value) visData) m acc)
     = foldl (++) (map_of acc) (map (\<lambda>(path, value). map_of (P path value)) m)"
  by (induction m arbitrary: acc) (auto simp: merge_map_of map_of_rev_distinct)

lemma fold_merge_fresh:
  "(\<forall>(path, value) \<in> set m. P path value = L path value) \<Longrightarrow>
   distinct (map fst (acc @ concat (map (\<lambda>(path, value). L path value) m))) \<Longrightarrow>
   fold (\<lambda>(path, value) visData.
       fold (\<lambda>(k, v) visData. AList.update k v visData) (P path value) visData) m acc
     = acc @ concat (map (\<lambda>(path, value). L path value) m)"
proof (induction m arbitrary: acc)
  case Nil
  then show ?case by simp
next
  case (Cons e m)
  obtain path sub where e: "e = (path, sub)" by (cases e)
  from Cons.prems e have PL: "P path sub = L path sub" by simp
  from Cons.prems e have d1: "distinct (map fst (acc @ L path sub))" by auto
  from Cons.prems e have d2:
    "distinct (map fst ((acc @ L path sub) @ concat (map (\<lambda>(path, value). L path value) m)))"
    by simp
  from Cons.prems have rest: "\<forall>(path, value) \<in> set m. P path value = L path value" by simp
  show ?case using Cons.IH[OF rest d2] e PL merge_fresh[OF d1] by simp
qed

lemma parseNode_leaves:
  "distinct (map fst (leaves p n)) \<Longrightarrow> parseNode p n = leaves p n"
proof (induction p n rule: parseNode.induct)
  case (1 prefix m)
  have sub: "\<forall>(path, value) \<in> set m.
     parseNode (prefix @ ''.'' @ path) value = leaves (prefix @ ''.'' @ path) value"
  proof (clarify)
    fix path sub assume mem: "(path, sub) \<in> set m"
    from "1.prems" have "distinct (concat (map (map fst) (map (\<lambda>(key, sub). leaves (prefix @ ''.'' @ key) sub) m)))"
      by (simp add: map_concat)
    then have "\<forall>ys \<in> set (map (map fst) (map (\<lambda>(key, sub). leaves (prefix @ ''.'' @ key) sub) m)). distinct ys"
      by (simp add: distinct_concat_iff)
    with mem have "distinct (map fst (leaves (prefix @ ''.'' @ path) sub))" by force
    with "1.IH"[OF mem refl] show "parseNode (prefix @ ''.'' @ path) sub = leaves (prefix @ ''.'' @ path) sub"
      by simp
  qed
  have d: "distinct (map fst ([] @ concat (map (\<lambda>(path, value). leaves (prefix @ ''.'' @ path) value) m)))"
    using "1.prems" by simp
  have "fold (\<lambda>(path, value) visData.
       fold (\<lambda>(k, v) visData. AList.update k v visData) (parseNode (prefix @ ''.'' @ path) value) visData) m []
     = [] @ concat (map (\<lambda>(path, value). leaves (prefix @ ''.'' @ path) value) m)"
    by (rule fold_merge_fresh[OF sub d])
  then show ?case by simp
qed simp_all


lemma update_set_subset: "set (AList.update k v al) \<subseteq> insert (k, v) (set al)"
  by (induction al) auto

lemma merge_set_subset:
  "set (fold (\<lambda>(k, v) visData. AList.update k v visData) sub acc) \<subseteq> set acc \<union> set sub"
proof (induction sub arbitrary: acc)
  case Nil
  show ?case by simp
next
  case (Cons e sub)
  obtain k v where e: "e = (k, v)" by (cases e)
  have "set (fold (\<lambda>(k, v) visData. AList.update k v visData) sub (AList.update k v acc))
          \<subseteq> set (AList.update k v acc) \<union> set sub"
    by (rule Cons.IH)
  also have "\<dots> \<subseteq> insert (k, v) (set acc) \<union> set sub"
    using update_set_subset[of k v acc] by blast
  finally show ?case using e by auto
qed

lemma fold_merge_set_subset:
  "set (fold (\<lambda>(path, value) visData.
       fold (\<lambda>(k, v) visData. AList.update k v visData) (P path value) visData) m acc)
     \<subseteq> set acc \<union> (\<Union>(path, value) \<in> set m. set (P path value))"
proof (induction m arbitrary: acc)
  case Nil
  show ?case by simp
next
  case (Cons e m)
  obtain path sub where e: "e = (path, sub)" by (cases e)
  let ?acc1 = "fold (\<lambda>(k, v) visData. AList.update k v visData) (P path sub) acc"
  have "set (fold (\<lambda>(path, value) visData.
       fold (\<lambda>(k, v) visData. AList.update k v visData) (P path value) visData) m ?acc1)
     \<subseteq> set ?acc1 \<union> (\<Union>(path, value) \<in> set m. set (P path value))"
    by (rule Cons.IH)
  moreover have "set ?acc1 \<subseteq> set acc \<union> set (P path sub)"
    by (rule merge_set_subset)
  ultimately show ?case using e by auto
qed

lemma HasPrefix_iff: "HasPrefix s prefix \<longleftrightarrow> (\<exists>r. s = prefix @ r)"
proof
  assume "HasPrefix s prefix"
  then have "s = prefix @ drop (length prefix) s"
    by (metis HasPrefix_def append_take_drop_id)
  then show "\<exists>r. s = prefix @ r" ..
next
  assume "\<exists>r. s = prefix @ r"
  then show "HasPrefix s prefix" by (auto simp: HasPrefix_def)
qed

lemma parseNode_keys:
  "path \<in> fst ` set (parseNode prefix n) \<Longrightarrow> path = prefix \<or> HasPrefix path (prefix @ ''.'')"
proof (induction prefix n arbitrary: path rule: parseNode.induct)
  case (1 prefix m)
  from "1.prems" have "path \<in> (\<Union>(key, sub) \<in> set m. fst ` set (parseNode (prefix @ ''.'' @ key) sub))"
    by (simp add: fold_merge_keys)
  then obtain key sub where mem: "(key, sub) \<in> set m"
    and path: "path \<in> fst ` set (parseNode (prefix @ ''.'' @ key) sub)"
    by auto
  from "1.IH"[OF mem refl path]
  have "path = prefix @ ''.'' @ key \<or> HasPrefix path ((prefix @ ''.'' @ key) @ ''.'')" .
  then have "HasPrefix path (prefix @ ''.'')"
    by (auto simp: HasPrefix_iff)
  then show ?case ..
qed simp_all

section \<open>Documents whose keys have no dot\<close>

text \<open>
  The paths of the leaves are pairwise distinct in every document whose objects have
  distinct keys without a dot: the key is then the segment of the path up to the next dot.
\<close>

lemma leaves_keys:
  "path \<in> fst ` set (leaves prefix n) \<Longrightarrow> path = prefix \<or> HasPrefix path (prefix @ ''.'')"
proof (induction prefix n arbitrary: path rule: leaves.induct)
  case (1 prefix m)
  from "1.prems" obtain key sub where mem: "(key, sub) \<in> set m"
    and path: "path \<in> fst ` set (leaves (prefix @ ''.'' @ key) sub)"
    by auto
  from "1.IH"[OF mem refl path]
  have "path = prefix @ ''.'' @ key \<or> HasPrefix path ((prefix @ ''.'' @ key) @ ''.'')" .
  then have "HasPrefix path (prefix @ ''.'')"
    by (auto simp: HasPrefix_iff)
  then show ?case ..
qed simp_all

lemma key_segment:
  "CHR ''.'' \<notin> set key \<Longrightarrow> r = [] \<or> (\<exists>r'. r = ''.'' @ r') \<Longrightarrow>
   takeWhile (\<lambda>c. c \<noteq> CHR ''.'') (key @ r) = key"
  by (induction key) auto

lemma leaves_under_key:
  assumes "path \<in> fst ` set (leaves (prefix @ ''.'' @ key) sub)"
  shows "\<exists>r. path = prefix @ ''.'' @ key @ r \<and> (r = [] \<or> (\<exists>r'. r = ''.'' @ r'))"
proof -
  from leaves_keys[OF assms]
  have "path = prefix @ ''.'' @ key \<or> HasPrefix path ((prefix @ ''.'' @ key) @ ''.'')" .
  then show ?thesis
  proof
    assume "path = prefix @ ''.'' @ key"
    then have "path = prefix @ ''.'' @ key @ []" by simp
    then show ?thesis by blast
  next
    assume "HasPrefix path ((prefix @ ''.'' @ key) @ ''.'')"
    then obtain r' where "path = ((prefix @ ''.'' @ key) @ ''.'') @ r'"
      by (auto simp: HasPrefix_iff)
    then have "path = prefix @ ''.'' @ key @ (''.'' @ r')" by simp
    then show ?thesis by blast
  qed
qed

lemma leaves_disjoint:
  assumes "CHR ''.'' \<notin> set key" and "CHR ''.'' \<notin> set key'" and "key \<noteq> key'"
  shows "fst ` set (leaves (prefix @ ''.'' @ key) sub)
           \<inter> fst ` set (leaves (prefix @ ''.'' @ key') sub') = {}"
proof (rule ccontr)
  assume "\<not> ?thesis"
  then obtain path where p1: "path \<in> fst ` set (leaves (prefix @ ''.'' @ key) sub)"
    and p2: "path \<in> fst ` set (leaves (prefix @ ''.'' @ key') sub')"
    by blast
  from leaves_under_key[OF p1] obtain r
    where r: "path = prefix @ ''.'' @ key @ r" "r = [] \<or> (\<exists>r'. r = ''.'' @ r')" by blast
  from leaves_under_key[OF p2] obtain s
    where s: "path = prefix @ ''.'' @ key' @ s" "s = [] \<or> (\<exists>r'. s = ''.'' @ r')" by blast
  from r(1) s(1) have "key @ r = key' @ s" by simp
  then have "takeWhile (\<lambda>c. c \<noteq> CHR ''.'') (key @ r) = takeWhile (\<lambda>c. c \<noteq> CHR ''.'') (key' @ s)"
    by simp
  then have "key = key'"
    using key_segment[OF assms(1) r(2)] key_segment[OF assms(2) s(2)] by simp
  with assms(3) show False by simp
qed

lemma distinct_concat_keys:
  assumes "distinct (map fst m)"
    and "\<And>key sub. (key, sub) \<in> set m \<Longrightarrow> distinct (map fst (L key sub))"
    and "\<And>key sub key' sub'. (key, sub) \<in> set m \<Longrightarrow> (key', sub') \<in> set m \<Longrightarrow>
           key \<noteq> key' \<Longrightarrow> fst ` set (L key sub) \<inter> fst ` set (L key' sub') = {}"
  shows "distinct (map fst (concat (map (\<lambda>(key, sub). L key sub) m)))"
  using assms
proof (induction m)
  case Nil
  show ?case by simp
next
  case (Cons e m)
  obtain key sub where e: "e = (key, sub)" by (cases e)
  from Cons.prems(1) e have fresh: "key \<notin> fst ` set m" by simp
  have r1: "distinct (map fst m)"
    using Cons.prems(1) by simp
  have rest: "distinct (map fst (concat (map (\<lambda>(key, sub). L key sub) m)))"
  proof (rule Cons.IH[OF r1])
    fix k s assume "(k, s) \<in> set m"
    then show "distinct (map fst (L k s))" by (intro Cons.prems(2)) simp
  next
    fix k s k' s' assume "(k, s) \<in> set m" "(k', s') \<in> set m" "k \<noteq> k'"
    then show "fst ` set (L k s) \<inter> fst ` set (L k' s') = {}"
      by (intro Cons.prems(3)) simp_all
  qed
  have here: "distinct (map fst (L key sub))"
    by (rule Cons.prems(2)) (simp add: e)
  have disj: "set (map fst (L key sub))
        \<inter> set (map fst (concat (map (\<lambda>(key, sub). L key sub) m))) = {}"
  proof (rule ccontr)
    assume "\<not> ?thesis"
    then obtain p where q1: "p \<in> set (map fst (L key sub))"
      and q2: "p \<in> set (map fst (concat (map (\<lambda>(key, sub). L key sub) m)))"
      by blast
    from q1 have p1: "p \<in> fst ` set (L key sub)" by simp
    from q2 obtain pv where "pv \<in> set (concat (map (\<lambda>(key, sub). L key sub) m))"
      and fpv: "p = fst pv"
      unfolding set_map by blast
    then obtain ys where ys: "ys \<in> set (map (\<lambda>(key, sub). L key sub) m)"
      and pv: "pv \<in> set ys"
      unfolding set_concat by blast
    from ys obtain x where x: "x \<in> set m" and yx: "ys = (\<lambda>(key, sub). L key sub) x"
      unfolding set_map by blast
    obtain key' sub' where xk: "x = (key', sub')" by (cases x)
    from x xk have mem: "(key', sub') \<in> set m" by simp
    from pv yx xk have "pv \<in> set (L key' sub')" by simp
    with fpv have p3: "p \<in> fst ` set (L key' sub')" by blast
    from mem fresh have ne: "key \<noteq> key'" by force
    have "fst ` set (L key sub) \<inter> fst ` set (L key' sub') = {}"
      by (rule Cons.prems(3)[OF _ _ ne]) (simp_all add: e mem)
    with p1 p3 show False by blast
  qed
  have step: "concat (map (\<lambda>(key, sub). L key sub) (e # m))
                = L key sub @ concat (map (\<lambda>(key, sub). L key sub) m)"
    by (simp add: e)
  show ?case
    unfolding step map_append distinct_append
    using here rest disj by blast
qed

lemma plainKeys_distinct_paths:
  "plainKeys D \<Longrightarrow> distinct (map fst (leaves prefix D))"
proof (induction prefix D rule: leaves.induct)
  case (1 prefix m)
  from "1.prems" have d: "distinct (map fst m)"
    by simp
  have ks: "CHR ''.'' \<notin> set key \<and> plainKeys sub" if "(key, sub) \<in> set m" for key sub
    using "1.prems" that by (auto simp: list_all_iff)
  have "distinct (map fst (concat (map (\<lambda>(key, sub). leaves (prefix @ ''.'' @ key) sub) m)))"
  proof (rule distinct_concat_keys[OF d])
    fix key sub assume mem: "(key, sub) \<in> set m"
    with ks have "plainKeys sub" by blast
    then show "distinct (map fst (leaves (prefix @ ''.'' @ key) sub))"
      by (rule "1.IH"[OF mem refl])
  next
    fix key sub key' sub'
    assume "(key, sub) \<in> set m" "(key', sub') \<in> set m" "key \<noteq> key'"
    with ks show "fst ` set (leaves (prefix @ ''.'' @ key) sub)
                    \<inter> fst ` set (leaves (prefix @ ''.'' @ key') sub') = {}"
      by (intro leaves_disjoint) blast+
  qed
  then show ?case by simp
qed simp_all

section \<open>The path tree codec\<close>

text \<open>
  C10: for every prefix, \<open>parseNode\<close> of an empty object is the empty map, and a pair whose
  value is an empty object adds no path to the flattening of the object around it: the
  result is the one of the object without that pair.
\<close>

theorem parseNode_empty_object:
  "parseNode prefix (VMap []) = [] \<and>
   parseNode prefix (VMap (m1 @ (key, VMap []) # m2)) = parseNode prefix (VMap (m1 @ m2))"
  by simp

text \<open>
  C4: for an object, the map \<open>parseNode\<close> returns is the union of the maps returned for
  each pair under the prefix extended by a dot and the key: as a map it is their merge in
  the order of the iteration, its keys are the union of their keys, each of its entries
  is an entry of one of them, and when they have no path in common it holds all their
  entries. For a value that is not an object it is the single entry of the prefix.
\<close>

theorem parseNode_object_or_leaf:
  "map_of (parseNode prefix (VMap m))
     = foldl (++) Map.empty (map (\<lambda>(key, sub). map_of (parseNode (prefix @ ''.'' @ key) sub)) m)
   \<and> fst ` set (parseNode prefix (VMap m))
     = (\<Union>(key, sub) \<in> set m. fst ` set (parseNode (prefix @ ''.'' @ key) sub))
   \<and> set (parseNode prefix (VMap m))
     \<subseteq> (\<Union>(key, sub) \<in> set m. set (parseNode (prefix @ ''.'' @ key) sub))
   \<and> (distinct (map fst (concat (map (\<lambda>(key, sub). parseNode (prefix @ ''.'' @ key) sub) m)))
       \<longrightarrow> parseNode prefix (VMap m)
             = concat (map (\<lambda>(key, sub). parseNode (prefix @ ''.'' @ key) sub) m))
   \<and> (\<not> isObject n \<longrightarrow> parseNode prefix n = [(prefix, n)])"
proof (intro conjI impI)
  show "map_of (parseNode prefix (VMap m))
     = foldl (++) Map.empty (map (\<lambda>(key, sub). map_of (parseNode (prefix @ ''.'' @ key) sub)) m)"
    using fold_merge_map_of[of m "\<lambda>key sub. parseNode (prefix @ ''.'' @ key) sub" "[]"]
    by (simp add: parseNode_distinct)
  show "fst ` set (parseNode prefix (VMap m))
     = (\<Union>(key, sub) \<in> set m. fst ` set (parseNode (prefix @ ''.'' @ key) sub))"
    by (simp add: fold_merge_keys)
  show "set (parseNode prefix (VMap m))
     \<subseteq> (\<Union>(key, sub) \<in> set m. set (parseNode (prefix @ ''.'' @ key) sub))"
    using fold_merge_set_subset[of "\<lambda>key sub. parseNode (prefix @ ''.'' @ key) sub" m "[]"]
    by simp
  show "parseNode prefix (VMap m)
             = concat (map (\<lambda>(key, sub). parseNode (prefix @ ''.'' @ key) sub) m)"
    if "distinct (map fst (concat (map (\<lambda>(key, sub). parseNode (prefix @ ''.'' @ key) sub) m)))"
    using fold_merge_fresh[of m "\<lambda>key sub. parseNode (prefix @ ''.'' @ key) sub"
                               "\<lambda>key sub. parseNode (prefix @ ''.'' @ key) sub" "[]"] that
    by simp
  show "parseNode prefix n = [(prefix, n)]" if "\<not> isObject n"
    using that by (cases n) simp_all
qed

theorem parseNode_object_or_leaf_witness:
  "parseNode ''Signal.Emulator'' exampleStats
     = [(''Signal.Emulator.speed'', VNum 60),
        (''Signal.Emulator.gps.lat'', VNum 50),
        (''Signal.Emulator.gps.long'', VNum 30),
        (''Signal.Emulator.doors'', VArray [VBool True, VBool False])]
   \<and> \<not> isObject (VArray [VBool True, VBool False :: int val])
   \<and> parseNode ''Signal.Emulator'' (VArray [VBool True, VBool False :: int val])
     = [(''Signal.Emulator'', VArray [VBool True, VBool False])]"
  using parseNode_object_or_leaf
          [where prefix = "''Signal.Emulator''"
             and m = "[(''speed'', VNum 60),
                       (''gps'', VMap [(''lat'', VNum 50), (''long'', VNum 30)]),
                       (''doors'', VArray [VBool True, VBool False]),
                       (''trailer'', VMap [])]"
             and n = "VArray [VBool True, VBool False :: int val]"]
  by (simp add: exampleStats_def)

text \<open>
  C9: every key of the map \<open>parseNode\<close> returns equals the prefix or starts with the prefix
  and a dot; so every key \<open>convertDataToVisFormat\<close> produces from an upstream document
  starts with \<^verbatim>\<open>Signal.Emulator\<close>.
\<close>

theorem parseNode_keys_under_prefix:
  "(\<forall>path \<in> fst ` set (parseNode prefix n). path = prefix \<or> HasPrefix path (prefix @ ''.''))
   \<and> (convertDataToVisFormat env dataJSON = Inr visData \<longrightarrow>
        (\<forall>path \<in> fst ` set visData. HasPrefix path ''Signal.Emulator''))"
proof (intro conjI impI ballI)
  fix path assume "path \<in> fst ` set (parseNode prefix n)"
  then show "path = prefix \<or> HasPrefix path (prefix @ ''.'')" by (rule parseNode_keys)
next
  fix path
  assume conv: "convertDataToVisFormat env dataJSON = Inr visData"
    and mem: "path \<in> fst ` set visData"
  from conv obtain d where "visData = parseNode ''Signal.Emulator'' d"
    by (auto simp: convertDataToVisFormat_def split: sum.splits)
  with mem have "path = ''Signal.Emulator'' \<or> HasPrefix path (''Signal.Emulator'' @ ''.'')"
    using parseNode_keys by blast
  then show "HasPrefix path ''Signal.Emulator''"
    by (auto simp: HasPrefix_iff)
qed

theorem parseNode_keys_under_prefix_witness:
  "convertDataToVisFormat exampleEnv exampleStatsJSON
     = Inr [(''Signal.Emulator.speed'', VNum 60),
            (''Signal.Emulator.gps.lat'', VNum 50),
            (''Signal.Emulator.gps.long'', VNum 30),
            (''Signal.Emulator.doors'', VArray [VBool True, VBool False])]
   \<and> HasPrefix ''Signal.Emulator.gps.lat'' ''Signal.Emulator''
   \<and> ''Signal.Emulator.gps.lat'' \<in> fst ` set (parseNode ''Signal.Emulator.gps'' (VMap [(''lat'', VNum (50::int))]))
   \<and> HasPrefix ''Signal.Emulator.gps.lat'' (''Signal.Emulator.gps'' @ ''.'')"
  using parseNode_keys_under_prefix
          [where env = exampleEnv and dataJSON = exampleStatsJSON
             and visData = "[(''Signal.Emulator.speed'', VNum 60),
                             (''Signal.Emulator.gps.lat'', VNum 50),
                             (''Signal.Emulator.gps.long'', VNum 30),
                             (''Signal.Emulator.doors'', VArray [VBool True, VBool False])]"
             and prefix = "''Signal.Emulator.gps''"
             and n = "VMap [(''lat'', VNum (50::int))]"]
  by (simp add: convertDataToVisFormat_def exampleEnv_def exampleStats_def HasPrefix_def)

text \<open>
  C3, as amended: the entries of \<open>parseNode prefix D\<close> are the leaves of \<open>D\<close>, each one
  once, exactly when the paths of the leaves of \<open>D\<close> are pairwise distinct; then no leaf
  value is dropped and none is duplicated. This is so whenever no key of \<open>D\<close> contains
  a dot.
\<close>

theorem parseNode_leaves_exact:
  "(mset (parseNode prefix D) = mset (leaves prefix D)
      \<longleftrightarrow> distinct (map fst (leaves prefix D)))
   \<and> (plainKeys D \<longrightarrow> mset (parseNode prefix D) = mset (leaves prefix D))"
proof (intro conjI impI iffI)
  assume eq: "mset (parseNode prefix D) = mset (leaves prefix D)"
  then have "mset (map fst (parseNode prefix D)) = mset (map fst (leaves prefix D))"
    by (metis mset_map)
  then show "distinct (map fst (leaves prefix D))"
    using parseNode_distinct[of prefix D] by (metis mset_eq_imp_distinct_iff)
next
  assume "distinct (map fst (leaves prefix D))"
  then show "mset (parseNode prefix D) = mset (leaves prefix D)"
    by (simp add: parseNode_leaves)
next
  assume "plainKeys D"
  then have "distinct (map fst (leaves prefix D))"
    by (rule plainKeys_distinct_paths)
  then show "mset (parseNode prefix D) = mset (leaves prefix D)"
    by (simp add: parseNode_leaves)
qed

theorem parseNode_leaves_exact_witness:
  "plainKeys exampleStats
   \<and> distinct (map fst (leaves ''Signal.Emulator'' exampleStats))
   \<and> mset (parseNode ''Signal.Emulator'' exampleStats)
       = mset (leaves ''Signal.Emulator'' exampleStats)"
  using parseNode_leaves_exact[of "''Signal.Emulator''" exampleStats]
  by (simp add: exampleStats_def)

text \<open>
  C3 as stated fails: in the document \<^verbatim>\<open>{"a": {"b": 1}, "a.b": 2}\<close> two leaves have the
  path \<^verbatim>\<open>p.a.b\<close>, and the flattening keeps the value of the one the iteration visits
  last. Whichever order the iteration takes, one of the two leaf values is dropped.
\<close>

theorem parseNode_drops_leaf:
  "leaves ''p'' (VMap [(''a'', VMap [(''b'', VNum (1::int))]), (''a.b'', VNum 2)])
      = [(''p.a.b'', VNum 1), (''p.a.b'', VNum 2)]
   \<and> parseNode ''p'' (VMap [(''a'', VMap [(''b'', VNum (1::int))]), (''a.b'', VNum 2)])
      = [(''p.a.b'', VNum 2)]
   \<and> parseNode ''p'' (VMap [(''a.b'', VNum 2), (''a'', VMap [(''b'', VNum (1::int))])])
      = [(''p.a.b'', VNum 1)]
   \<and> mset (map snd (parseNode ''p''
              (VMap [(''a'', VMap [(''b'', VNum (1::int))]), (''a.b'', VNum 2)])))
      \<noteq> mset (map snd (leaves ''p''
              (VMap [(''a'', VMap [(''b'', VNum (1::int))]), (''a.b'', VNum 2)])))"
  by simp

section \<open>Outbound writes\<close>

lemma TrimPrefix_inverse:
  "HasPrefix s prefix \<Longrightarrow> prefix @ TrimPrefix s prefix = s"
  by (auto simp: HasPrefix_iff TrimPrefix_def)

lemma TrimPrefix_inj_on:
  "\<forall>s \<in> S. HasPrefix s prefix \<Longrightarrow> inj_on (\<lambda>s. TrimPrefix s prefix) S"
  by (rule inj_onI) (metis TrimPrefix_inverse)

lemma convertLoop_accepts:
  "\<forall>path \<in> fst ` set visData. HasPrefix path ''Attribute.Emulator.'' \<Longrightarrow>
   distinct (map fst (acc @ map (\<lambda>(path, value). (TrimPrefix path ''Attribute.Emulator.'', value)) visData)) \<Longrightarrow>
   convertLoop visData acc
     = Inr (acc @ map (\<lambda>(path, value). (TrimPrefix path ''Attribute.Emulator.'', value)) visData)"
proof (induction visData arbitrary: acc)
  case Nil
  show ?case by simp
next
  case (Cons e visData)
  obtain path v where e: "e = (path, v)" by (cases e)
  let ?k = "TrimPrefix path ''Attribute.Emulator.''"
  from Cons.prems e have ok: "HasPrefix path ''Attribute.Emulator.''" by simp
  from Cons.prems e have fresh: "?k \<notin> fst ` set acc" by auto
  from Cons.prems have rest: "\<forall>path \<in> fst ` set visData. HasPrefix path ''Attribute.Emulator.''"
    by simp
  from Cons.prems e have d:
    "distinct (map fst ((acc @ [(?k, v)]) @ map (\<lambda>(path, value). (TrimPrefix path ''Attribute.Emulator.'', value)) visData))"
    by simp
  from Cons.IH[OF rest d] show ?case
    using e ok fresh by (simp add: update_fresh)
qed

lemma convertLoop_rejects:
  "\<exists>path \<in> fst ` set visData. \<not> HasPrefix path ''Attribute.Emulator.'' \<Longrightarrow>
   \<exists>path \<in> fst ` set visData. \<not> HasPrefix path ''Attribute.Emulator.'' \<and>
      convertLoop visData acc = Inl (PathDoesNotExist path)"
proof (induction visData arbitrary: acc)
  case Nil
  then show ?case by simp
next
  case (Cons e visData)
  obtain path v where e: "e = (path, v)" by (cases e)
  show ?case
  proof (cases "HasPrefix path ''Attribute.Emulator.''")
    case True
    with Cons.prems e have "\<exists>path \<in> fst ` set visData. \<not> HasPrefix path ''Attribute.Emulator.''"
      by auto
    from Cons.IH[OF this, of "AList.update (TrimPrefix path ''Attribute.Emulator.'') v acc"]
    show ?thesis using e True by auto
  next
    case False
    then show ?thesis using e by auto
  qed
qed

lemma trimmed_keys_distinct:
  assumes "isGoMap visData"
    and "\<forall>path \<in> fst ` set visData. HasPrefix path prefix"
  shows "distinct (map fst (map (\<lambda>(path, value). (TrimPrefix path prefix, value)) visData))"
proof -
  have eq: "map fst (map (\<lambda>(path, value). (TrimPrefix path prefix, value)) visData)
          = map (\<lambda>s. TrimPrefix s prefix) (map fst visData)"
    by (simp add: case_prod_beta comp_def)
  have "distinct (map (\<lambda>s. TrimPrefix s prefix) (map fst visData))"
  proof -
    have d: "distinct (map fst visData)"
      using assms(1) by (simp add: isGoMap_def)
    have "\<forall>s \<in> set (map fst visData). HasPrefix s prefix"
      using assms(2) by simp
    then have "inj_on (\<lambda>s. TrimPrefix s prefix) (set (map fst visData))"
      by (rule TrimPrefix_inj_on)
    with d show ?thesis
      using distinct_map[of "\<lambda>s. TrimPrefix s prefix" "map fst visData"] by blast
  qed
  then show ?thesis by (simp only: eq)
qed

text \<open>
  C2, as amended: if every key of the map begins with \<^verbatim>\<open>Attribute.Emulator.\<close>, the conversion
  hands to the encoder the map in which each key is replaced by what follows the prefix,
  dots included, with its value, and returns what the encoder returns: the encoding, or
  the encoder's error, and then \<open>SetData\<close> returns that error with the adapter and the
  trace unchanged. If some key does not begin with the prefix, the conversion fails with
  the error that names such a key, and \<open>SetData\<close> returns that error with the adapter and
  the trace unchanged: nothing is sent upstream.
\<close>

theorem convertVisFormatToData_prefix:
  "(isGoMap visData \<and> (\<forall>path \<in> fst ` set visData. HasPrefix path ''Attribute.Emulator.'') \<longrightarrow>
      convertVisFormatToData env visData
        = jsonMarshal env
            (map (\<lambda>(path, value). (TrimPrefix path ''Attribute.Emulator.'', value)) visData)
      \<and> (\<forall>path \<in> fst ` set visData.
            ''Attribute.Emulator.'' @ TrimPrefix path ''Attribute.Emulator.'' = path)
      \<and> (\<forall>e. jsonMarshal env
                 (map (\<lambda>(path, value). (TrimPrefix path ''Attribute.Emulator.'', value)) visData)
               = Inl e \<longrightarrow>
               SetData env httpPost visData (adapter, tr) = (Fail e, adapter, tr)))
   \<and> ((\<exists>path \<in> fst ` set visData. \<not> HasPrefix path ''Attribute.Emulator.'') \<longrightarrow>
      (\<exists>path \<in> fst ` set visData. \<not> HasPrefix path ''Attribute.Emulator.'' \<and>
         convertVisFormatToData env visData = Inl (PathDoesNotExist path) \<and>
         SetData env httpPost visData (adapter, tr) = (Fail (PathDoesNotExist path), adapter, tr)))"
proof (intro conjI impI allI)
  assume a: "isGoMap visData \<and> (\<forall>path \<in> fst ` set visData. HasPrefix path ''Attribute.Emulator.'')"
  then have "distinct (map fst ([] @ map (\<lambda>(path, value). (TrimPrefix path ''Attribute.Emulator.'', value)) visData))"
    using trimmed_keys_distinct[of visData "''Attribute.Emulator.''"] by simp
  with a have "convertLoop visData []
     = Inr ([] @ map (\<lambda>(path, value). (TrimPrefix path ''Attribute.Emulator.'', value)) visData)"
    by (intro convertLoop_accepts) simp_all
  then show conv: "convertVisFormatToData env visData
        = jsonMarshal env
            (map (\<lambda>(path, value). (TrimPrefix path ''Attribute.Emulator.'', value)) visData)"
    by (simp add: convertVisFormatToData_def split: sum.splits)
  from a show "\<forall>path \<in> fst ` set visData.
            ''Attribute.Emulator.'' @ TrimPrefix path ''Attribute.Emulator.'' = path"
    using TrimPrefix_inverse by blast
  fix e
  assume "jsonMarshal env
            (map (\<lambda>(path, value). (TrimPrefix path ''Attribute.Emulator.'', value)) visData)
          = Inl e"
  with conv have "convertVisFormatToData env visData = Inl e" by simp
  then show "SetData env httpPost visData (adapter, tr) = (Fail e, adapter, tr)"
    by (simp add: SetData_def)
next
  assume "\<exists>path \<in> fst ` set visData. \<not> HasPrefix path ''Attribute.Emulator.''"
  from convertLoop_rejects[OF this, of "[]"]
  obtain path where p: "path \<in> fst ` set visData" "\<not> HasPrefix path ''Attribute.Emulator.''"
    "convertLoop visData [] = Inl (PathDoesNotExist path)" by blast
  then have "convertVisFormatToData env visData = Inl (PathDoesNotExist path)"
    by (simp add: convertVisFormatToData_def)
  moreover from this have "SetData env httpPost visData (adapter, tr) = (Fail (PathDoesNotExist path), adapter, tr)"
    by (simp add: SetData_def)
  ultimately show "\<exists>path \<in> fst ` set visData. \<not> HasPrefix path ''Attribute.Emulator.'' \<and>
         convertVisFormatToData env visData = Inl (PathDoesNotExist path) \<and>
         SetData env httpPost visData (adapter, tr) = (Fail (PathDoesNotExist path), adapter, tr)"
    using p by blast
qed

theorem convertVisFormatToData_prefix_witness:
  "isGoMap [(''Attribute.Emulator.stop'', VBool True), (''Attribute.Emulator.zone.north'', VNum (1::int))]
   \<and> HasPrefix ''Attribute.Emulator.stop'' ''Attribute.Emulator.''
   \<and> HasPrefix ''Attribute.Emulator.zone.north'' ''Attribute.Emulator.''
   \<and> convertVisFormatToData exampleEnv
        [(''Attribute.Emulator.stop'', VBool True), (''Attribute.Emulator.zone.north'', VNum 1)]
      = jsonMarshal exampleEnv [(''stop'', VBool True), (''zone.north'', VNum 1)]
   \<and> jsonMarshal exampleEnv [(''stop'', VBool True), (''zone.north'', VNum 1)]
      = Inr ''stop;zone.north;''
   \<and> \<not> HasPrefix ''Foo.bar'' ''Attribute.Emulator.''
   \<and> convertVisFormatToData exampleEnv
        [(''Attribute.Emulator.stop'', VBool True), (''Foo.bar'', VNum 1)]
      = Inl (PathDoesNotExist ''Foo.bar'')
   \<and> SetData exampleEnv examplePost
        [(''Attribute.Emulator.stop'', VBool True), (''Foo.bar'', VNum 1)] (exampleAdapter, [])
      = (Fail (PathDoesNotExist ''Foo.bar''), exampleAdapter, [])
   \<and> jsonMarshal exampleEnvFloat [(''stop'', VNum NaN)]
      = Inl (LibError ''json: unsupported value: NaN'')
   \<and> SetData exampleEnvFloat examplePost
        [(''Attribute.Emulator.stop'', VNum NaN)] (exampleAdapterFloat, [])
      = (Fail (LibError ''json: unsupported value: NaN''), exampleAdapterFloat, [])"
  using convertVisFormatToData_prefix
          [where visData = "[(''Attribute.Emulator.stop'', VBool True),
                             (''Attribute.Emulator.zone.north'', VNum (1::int))]"
             and env = exampleEnv and httpPost = examplePost
             and adapter = exampleAdapter and tr = "[]"]
        convertVisFormatToData_prefix
          [where visData = "[(''Attribute.Emulator.stop'', VBool True), (''Foo.bar'', VNum (1::int))]"
             and env = exampleEnv and httpPost = examplePost
             and adapter = exampleAdapter and tr = "[]"]
        convertVisFormatToData_prefix
          [where visData = "[(''Attribute.Emulator.stop'', VNum NaN)]"
             and env = exampleEnvFloat and httpPost = examplePost
             and adapter = exampleAdapterFloat and tr = "[]"]
  by (simp add: isGoMap_def HasPrefix_def TrimPrefix_def exampleEnv_def exampleEnvFloat_def)

text \<open>
  C2 as stated fails: every key of the map \<^verbatim>\<open>{"Attribute.Emulator.stop": NaN}\<close> begins with
  the prefix, and the conversion does not succeed: it returns the error of the encoder.
\<close>

theorem convertVisFormatToData_encoder_error:
  "isGoMap [(''Attribute.Emulator.stop'', VNum NaN)]
   \<and> HasPrefix ''Attribute.Emulator.stop'' ''Attribute.Emulator.''
   \<and> convertVisFormatToData exampleEnvFloat [(''Attribute.Emulator.stop'', VNum NaN)]
      = Inl (LibError ''json: unsupported value: NaN'')"
  by (simp add: isGoMap_def HasPrefix_def TrimPrefix_def convertVisFormatToData_def
        exampleEnvFloat_def)

text \<open>
  C1: \<open>SetData\<close> ends in one of four ways. It returns an error or panics before any
  request, and nothing has changed. Or it has performed the POST to the address resolved
  from \<^verbatim>\<open>attributes/\<close>, and: the POST failed in transport, the error is returned and the
  adapter is unchanged; or the status is not 201, the error carries the status text and
  the adapter is unchanged; or the status is 201, and only then the base adapter's
  \<^verbatim>\<open>setData\<close> is called, after the POST, and its result is the result of the call.
\<close>

theorem SetData_upstream_before_commit:
  "\<exists>r adapter' evs.
     SetData env httpPost visData (adapter, tr) = (r, adapter', tr @ evs) \<and>
     ((evs = [] \<and> adapter' = adapter \<and> r \<noteq> Val ())
      \<or> (\<exists>u path body.
            sensorURL adapter = Some u \<and> urlParse env ''attributes/'' = Inr path \<and>
            convertVisFormatToData env visData = Inr body \<and>
            ((\<exists>e. httpPost (resolveReference env u path) body = PostError e \<and>
                  evs = [HttpPost (resolveReference env u path) body] \<and>
                  adapter' = adapter \<and> r = Fail e)
             \<or> (\<exists>code status.
                  httpPost (resolveReference env u path) body = Response code status \<and>
                  code \<noteq> 201 \<and>
                  evs = [HttpPost (resolveReference env u path) body] \<and>
                  adapter' = adapter \<and> r = Fail (HTTPStatus status))
             \<or> (\<exists>status.
                  httpPost (resolveReference env u path) body = Response 201 status \<and>
                  evs = [HttpPost (resolveReference env u path) body, BaseSetData visData] \<and>
                  adapter' = adapter\<lparr>baseAdapter :=
                                snd (setData env (baseAdapter adapter) visData)\<rparr> \<and>
                  r = (case fst (setData env (baseAdapter adapter) visData) of
                         None \<Rightarrow> Val () | Some e \<Rightarrow> Fail e)))))"
  by (auto simp: SetData_def Let_def
           split: sum.splits option.splits httpPostResult.splits prod.splits)

theorem SetData_upstream_before_commit_witness:
  "SetData exampleEnv examplePost exampleWrite (exampleAdapter, [])
     = (Val (),
        exampleAdapter\<lparr>baseAdapter :=
          \<lparr>name = ''SensorEmulatorAdapter'',
           data = [(''Attribute.Emulator.stop'', \<lparr>Value = VBool True\<rparr>)]\<rparr>\<rparr>,
        [HttpPost ''http://sensor:8800/attributes/'' ''stop;'', BaseSetData exampleWrite])
   \<and> SetData exampleEnv (\<lambda>address body. Response 500 ''500 Internal Server Error'')
        exampleWrite (exampleAdapter, [])
     = (Fail (HTTPStatus ''500 Internal Server Error''), exampleAdapter,
        [HttpPost ''http://sensor:8800/attributes/'' ''stop;''])
   \<and> SetData exampleEnv (\<lambda>address body. PostError (LibError ''connection refused''))
        exampleWrite (exampleAdapter, [])
     = (Fail (LibError ''connection refused''), exampleAdapter,
        [HttpPost ''http://sensor:8800/attributes/'' ''stop;''])"
  using SetData_upstream_before_commit
          [of exampleEnv "\<lambda>address body. Response 500 ''500 Internal Server Error''"
              exampleWrite exampleAdapter "[]"]
  by (simp add: SetData_def convertVisFormatToData_def exampleEnv_def examplePost_def
        exampleWrite_def exampleAdapter_def exampleSetData_def HasPrefix_def TrimPrefix_def)

section \<open>The public flag\<close>

text \<open>
  C7: for every path, \<open>IsPathPublic\<close> returns true and no error.
\<close>

theorem IsPathPublic_always_true: "IsPathPublic adapter path = (True, None)"
  by (simp add: IsPathPublic_def)

section \<open>Construction\<close>

lemma example_parse:
  "parseNode ''Signal.Emulator'' exampleStats
     = [(''Signal.Emulator.speed'', VNum 60),
        (''Signal.Emulator.gps.lat'', VNum 50),
        (''Signal.Emulator.gps.long'', VNum 30),
        (''Signal.Emulator.doors'', VArray [VBool True, VBool False])]"
  by (simp add: exampleStats_def)

lemma example_get:
  "getDataFromSensorEmulator exampleEnv exampleGet
      \<lparr>sensorURL = Some (URL ''http://sensor:8800/''), updatePeriod = p, baseAdapter = b\<rparr> tr
    = (Val (parseNode ''Signal.Emulator'' exampleStats), tr @ [HttpGet ''http://sensor:8800/stats''])"
  by (simp add: getDataFromSensorEmulator_def exampleEnv_def exampleGet_def
        convertDataToVisFormat_def)

lemma example_new_default:
  "NewSensorEmulatorAdapter exampleEnv exampleGet cfgDefaultPeriod []
     = (Val (exampleConstructed 500), [HttpGet ''http://sensor:8800/stats''])"
proof -
  have cfg: "jsonUnmarshalConfig exampleEnv cfgDefaultPeriod
       = Inr \<lparr>fSensorURL = Some ''http://sensor:8800/'', fUpdatePeriod = None\<rparr>"
    by (simp add: exampleEnv_def)
  have url: "urlParse exampleEnv ''http://sensor:8800/'' = Inr (URL ''http://sensor:8800/'')"
    by (simp add: exampleEnv_def)
  have base: "newBaseAdapter exampleEnv = Inr \<lparr>name = [], data = []\<rparr>"
    by (simp add: exampleEnv_def)
  show ?thesis
    by (simp add: NewSensorEmulatorAdapter_def cfg url base unmarshalInto_def example_get
          example_parse createDataMap_def createAttributes_def attributePaths_def
          exampleConstructed_def defaultUpdatePeriod_def)
qed

lemma example_new_100:
  "NewSensorEmulatorAdapter exampleEnv exampleGet cfgPeriod100 []
     = (Val (exampleConstructed 100), [HttpGet ''http://sensor:8800/stats''])"
proof -
  have cfg: "jsonUnmarshalConfig exampleEnv cfgPeriod100
       = Inr \<lparr>fSensorURL = Some ''http://sensor:8800/'', fUpdatePeriod = Some 100\<rparr>"
    by (simp add: exampleEnv_def cfgPeriod100_def cfgDefaultPeriod_def)
  have url: "urlParse exampleEnv ''http://sensor:8800/'' = Inr (URL ''http://sensor:8800/'')"
    by (simp add: exampleEnv_def)
  have base: "newBaseAdapter exampleEnv = Inr \<lparr>name = [], data = []\<rparr>"
    by (simp add: exampleEnv_def)
  show ?thesis
    by (simp add: NewSensorEmulatorAdapter_def cfg url base unmarshalInto_def example_get
          example_parse createDataMap_def createAttributes_def attributePaths_def
          exampleConstructed_def defaultUpdatePeriod_def)
qed

lemma example_new_period:
  assumes "jsonUnmarshalConfig exampleEnv configJSON
             = Inr \<lparr>fSensorURL = Some ''http://sensor:8800/'', fUpdatePeriod = Some p\<rparr>"
  shows "NewSensorEmulatorAdapter exampleEnv exampleGet configJSON []
           = (Val (exampleConstructed p), [HttpGet ''http://sensor:8800/stats''])"
proof -
  have url: "urlParse exampleEnv ''http://sensor:8800/'' = Inr (URL ''http://sensor:8800/'')"
    by (simp add: exampleEnv_def)
  have base: "newBaseAdapter exampleEnv = Inr \<lparr>name = [], data = []\<rparr>"
    by (simp add: exampleEnv_def)
  show ?thesis
    by (simp add: NewSensorEmulatorAdapter_def assms url base unmarshalInto_def example_get
          example_parse createDataMap_def createAttributes_def attributePaths_def
          exampleConstructed_def)
qed

lemma example_new_0:
  "NewSensorEmulatorAdapter exampleEnv exampleGet cfgPeriod0 []
     = (Val (exampleConstructed 0), [HttpGet ''http://sensor:8800/stats''])"
  by (rule example_new_period)
     (simp add: exampleEnv_def cfgPeriod0_def cfgDefaultPeriod_def cfgPeriod100_def
        cfgBadURL_def cfgNoURL_def)

lemma example_new_huge:
  "NewSensorEmulatorAdapter exampleEnv exampleGet cfgPeriodHuge []
     = (Val (exampleConstructed 18446744073710), [HttpGet ''http://sensor:8800/stats''])"
  by (rule example_new_period)
     (simp add: exampleEnv_def cfgPeriodHuge_def cfgPeriod0_def cfgDefaultPeriod_def
        cfgPeriod100_def cfgBadURL_def cfgNoURL_def)

lemma constructed_period:
  assumes "NewSensorEmulatorAdapter env httpGet configJSON tr = (Val adapter, tr')"
    and "jsonUnmarshalConfig env configJSON = Inr present"
  shows "updatePeriod adapter
           = (case fUpdatePeriod present of None \<Rightarrow> defaultUpdatePeriod | Some p \<Rightarrow> p)"
  using assms
  by (auto simp: NewSensorEmulatorAdapter_def Let_def unmarshalInto_def
        split: sum.splits if_splits prod.splits res.splits option.splits)

lemma interval_in_range:
  fixes p :: "64 word"
  assumes "uint p * 1000000 < 2 ^ 63"
  shows "sint (p * 1000000) = uint p * 1000000"
proof -
  have nonneg: "0 \<le> uint p * 1000000" by simp
  have small: "uint p * 1000000 < 18446744073709551616" using assms by simp
  have "uint (p * 1000000) = uint p * 1000000 mod 18446744073709551616"
    by (simp add: uint_word_ariths)
  also have "\<dots> = uint p * 1000000"
    using nonneg small by (rule mod_pos_pos_trivial)
  finally have u: "uint (p * 1000000) = uint p * 1000000" .
  have "sint (p * 1000000) = signed_take_bit 63 (uint (p * 1000000))"
    by (simp add: sint_uint)
  also have "\<dots> = uint p * 1000000"
  proof -
    have lo: "- (2 ^ 63) \<le> uint p * 1000000"
      using nonneg by (rule order_trans[rotated]) simp
    show ?thesis
      unfolding u by (rule signed_take_bit_int_eq_self[OF lo assms])
  qed
  finally show ?thesis .
qed

text \<open>
  C8, as amended: when the constructor returns an adapter, its update period is 500 if
  the configuration has no \<^verbatim>\<open>UpdatePeriod\<close> field, the interval of the ticker is then
  500 milliseconds and the ticker starts. If the field is present with the value \<open>p\<close>, the
  update period is \<open>p\<close> and the interval of the ticker is \<open>p\<close> times 1000000 nanoseconds in
  64-bit arithmetic: it is \<open>p\<close> milliseconds, and the ticker starts, when \<open>p\<close> is positive
  and the product is below \<open>2 ^ 63\<close>; for \<open>p = 0\<close> the refresh task panics when it creates
  the ticker.
\<close>

theorem NewSensorEmulatorAdapter_updatePeriod:
  assumes "NewSensorEmulatorAdapter env httpGet configJSON tr = (Val adapter, tr')"
    and "jsonUnmarshalConfig env configJSON = Inr present"
  shows "(fUpdatePeriod present = None \<longrightarrow>
            updatePeriod adapter = 500 \<and> sint (tickerInterval adapter) = 500 * 1000000 \<and>
            processData env ticks (adapter, tr0) = refreshLoop env ticks (adapter, tr0))
         \<and> (\<forall>p. fUpdatePeriod present = Some p \<longrightarrow>
               updatePeriod adapter = p \<and> tickerInterval adapter = p * 1000000 \<and>
               (0 < p \<and> uint p * 1000000 < 2 ^ 63 \<longrightarrow>
                  sint (tickerInterval adapter) = uint p * 1000000 \<and>
                  processData env ticks (adapter, tr0) = refreshLoop env ticks (adapter, tr0)) \<and>
               (p = 0 \<longrightarrow> processData env ticks (adapter, tr0) = (Panicked, adapter, tr0)))"
proof (intro conjI impI allI)
  note per = constructed_period[OF assms]
  {
    assume "fUpdatePeriod present = None"
    with per have p500: "updatePeriod adapter = 500"
      by (simp add: defaultUpdatePeriod_def)
    then show "updatePeriod adapter = 500" .
    from p500 show "sint (tickerInterval adapter) = 500 * 1000000"
      by (simp add: tickerInterval_def)
    from p500 show "processData env ticks (adapter, tr0) = refreshLoop env ticks (adapter, tr0)"
      by (simp add: processData_def tickerInterval_def)
  }
  fix p
  assume some: "fUpdatePeriod present = Some p"
  with per show up: "updatePeriod adapter = p" by simp
  then show ti: "tickerInterval adapter = p * 1000000"
    by (simp add: tickerInterval_def)
  {
    assume range: "0 < p \<and> uint p * 1000000 < 2 ^ 63"
    then have s: "sint (p * 1000000) = uint p * 1000000"
      by (intro interval_in_range) simp
    with ti show "sint (tickerInterval adapter) = uint p * 1000000" by simp
    from range have "0 < uint p" by (simp add: word_less_def)
    with s ti have "0 < sint (tickerInterval adapter)" by simp
    then show "processData env ticks (adapter, tr0) = refreshLoop env ticks (adapter, tr0)"
      by (simp add: processData_def)
  }
  {
    assume "p = 0"
    with ti show "processData env ticks (adapter, tr0) = (Panicked, adapter, tr0)"
      by (simp add: processData_def)
  }
qed

theorem NewSensorEmulatorAdapter_updatePeriod_witness:
  "NewSensorEmulatorAdapter exampleEnv exampleGet cfgDefaultPeriod []
     = (Val (exampleConstructed 500), [HttpGet ''http://sensor:8800/stats''])
   \<and> updatePeriod (exampleConstructed 500) = 500
   \<and> sint (tickerInterval (exampleConstructed 500)) = 500 * 1000000
   \<and> NewSensorEmulatorAdapter exampleEnv exampleGet cfgPeriod100 []
     = (Val (exampleConstructed 100), [HttpGet ''http://sensor:8800/stats''])
   \<and> updatePeriod (exampleConstructed 100) = 100
   \<and> (0::64 word) < 100 \<and> uint (100::64 word) * 1000000 < 2 ^ 63
   \<and> sint (tickerInterval (exampleConstructed 100)) = 100 * 1000000
   \<and> processData exampleEnv [] (exampleConstructed 100, [])
       = refreshLoop exampleEnv [] (exampleConstructed 100, [])"
  using
    NewSensorEmulatorAdapter_updatePeriod
      [OF example_new_default,
       of "\<lparr>fSensorURL = Some ''http://sensor:8800/'', fUpdatePeriod = None\<rparr>" "[]" "[]"]
    NewSensorEmulatorAdapter_updatePeriod
      [OF example_new_100,
       of "\<lparr>fSensorURL = Some ''http://sensor:8800/'', fUpdatePeriod = Some 100\<rparr>" "[]" "[]"]
    example_new_default example_new_100
  by (simp add: exampleEnv_def cfgPeriod100_def cfgDefaultPeriod_def)

text \<open>
  C8 as stated fails: with \<^verbatim>\<open>"UpdatePeriod": 0\<close> the adapter is constructed and its refresh
  task panics when it creates the ticker, so nothing is polled; with
  \<^verbatim>\<open>"UpdatePeriod": 18446744073710\<close> the interval of the ticker wraps to 448384 nanoseconds.
\<close>

theorem NewSensorEmulatorAdapter_period_not_interval:
  "NewSensorEmulatorAdapter exampleEnv exampleGet cfgPeriod0 []
     = (Val (exampleConstructed 0), [HttpGet ''http://sensor:8800/stats''])
   \<and> processData exampleEnv [exampleGet] (exampleConstructed 0, [])
     = (Panicked, exampleConstructed 0, [])
   \<and> NewSensorEmulatorAdapter exampleEnv exampleGet cfgPeriodHuge []
     = (Val (exampleConstructed 18446744073710), [HttpGet ''http://sensor:8800/stats''])
   \<and> sint (tickerInterval (exampleConstructed 18446744073710)) = 448384"
  using example_new_0 example_new_huge
  by (simp add: processData_def tickerInterval_def exampleConstructed_def)

text \<open>
  A configuration the decoder rejects and a configuration without a sensor URL make the
  constructor return an error. A sensor URL that does not parse does not: the base
  adapter is created and the first fetch dereferences the nil URL.
\<close>

lemma NewSensorEmulatorAdapter_malformed_JSON:
  "jsonUnmarshalConfig env configJSON = Inl e \<Longrightarrow>
   NewSensorEmulatorAdapter env httpGet configJSON tr = (Fail e, tr)"
  by (simp add: NewSensorEmulatorAdapter_def)

lemma NewSensorEmulatorAdapter_missing_URL:
  "jsonUnmarshalConfig env configJSON = Inr present \<Longrightarrow>
   fSensorURL present = None \<or> fSensorURL present = Some [] \<Longrightarrow>
   NewSensorEmulatorAdapter env httpGet configJSON tr = (Fail SensorURLUndefined, tr)"
  by (auto simp: NewSensorEmulatorAdapter_def unmarshalInto_def)

lemma NewSensorEmulatorAdapter_bad_URL:
  "jsonUnmarshalConfig env configJSON = Inr present \<Longrightarrow>
   fSensorURL present = Some rawURL \<Longrightarrow> rawURL \<noteq> [] \<Longrightarrow>
   urlParse env rawURL = Inl e \<Longrightarrow>
   newBaseAdapter env = Inr base \<Longrightarrow>
   urlParse env ''stats'' = Inr path \<Longrightarrow>
   NewSensorEmulatorAdapter env httpGet configJSON tr = (Panic, tr)"
  by (simp add: NewSensorEmulatorAdapter_def unmarshalInto_def getDataFromSensorEmulator_def)

lemma NewSensorEmulatorAdapter_has_URL:
  "NewSensorEmulatorAdapter env httpGet configJSON tr = (Val adapter, tr') \<Longrightarrow>
   \<exists>u. sensorURL adapter = Some u"
  by (auto simp: NewSensorEmulatorAdapter_def Let_def getDataFromSensorEmulator_def
        split: sum.splits if_splits prod.splits res.splits option.splits httpGetResult.splits)

text \<open>
  C5 fails on the code for a sensor URL that does not parse: on the configuration
  \<^verbatim>\<open>{"SensorURL":":foo"}\<close> the constructor panics instead of returning an error.
\<close>

theorem NewSensorEmulatorAdapter_bad_URL_panics:
  "NewSensorEmulatorAdapter exampleEnv exampleGet cfgBadURL [] = (Panic, [])"
  by (simp add: NewSensorEmulatorAdapter_def exampleEnv_def cfgBadURL_def cfgDefaultPeriod_def
        cfgPeriod100_def unmarshalInto_def getDataFromSensorEmulator_def)

section \<open>The refresh task\<close>

lemma getData_trace:
  "getDataFromSensorEmulator env httpGet adapter tr = (r, tr1) \<Longrightarrow>
   tr1 = tr \<or> (\<exists>address. tr1 = tr @ [HttpGet address])"
  by (auto simp: getDataFromSensorEmulator_def Let_def
        split: sum.splits option.splits httpGetResult.splits)

lemma getData_no_panic:
  "sensorURL adapter = Some u \<Longrightarrow>
   getDataFromSensorEmulator env httpGet adapter tr \<noteq> (Panic, tr1)"
  by (auto simp: getDataFromSensorEmulator_def Let_def
        split: sum.splits option.splits httpGetResult.splits)

lemma getData_count:
  "getDataFromSensorEmulator env httpGet adapter tr = (r, tr1) \<Longrightarrow>
   length (filter isHttpGet tr1) \<le> Suc (length (filter isHttpGet tr))"
  using getData_trace[of env httpGet adapter tr r tr1] by auto

lemma refreshLoop_running:
  "sensorURL adapter = Some u \<Longrightarrow>
   \<exists>adapter' tr'. refreshLoop env ticks (adapter, tr) = (Running, adapter', tr') \<and>
      sensorURL adapter' = Some u \<and> updatePeriod adapter' = updatePeriod adapter \<and>
      length (filter isHttpGet tr') \<le> length (filter isHttpGet tr) + length ticks"
proof (induction ticks arbitrary: adapter tr)
  case Nil
  then show ?case by simp
next
  case (Cons httpGet ticks)
  obtain r tr1 where g: "getDataFromSensorEmulator env httpGet adapter tr = (r, tr1)"
    by (cases "getDataFromSensorEmulator env httpGet adapter tr")
  from getData_count[OF g]
  have c1: "length (filter isHttpGet tr1) \<le> Suc (length (filter isHttpGet tr))" .
  show ?case
  proof (cases r)
    case Panic
    with g getData_no_panic[OF Cons.prems] show ?thesis by blast
  next
    case (Fail e)
    from Cons.IH[OF Cons.prems, of "tr1 @ [LogError (CantReadData e)]"]
    show ?thesis using g Fail c1 by auto
  next
    case (Val visData)
    obtain res base where s: "setData env (baseAdapter adapter) visData = (res, base)"
      by (cases "setData env (baseAdapter adapter) visData")
    have u: "sensorURL (adapter\<lparr>baseAdapter := base\<rparr>) = Some u"
      using Cons.prems by simp
    show ?thesis
    proof (cases res)
      case None
      from Cons.IH[OF u, of "tr1 @ [BaseSetData visData]"]
      show ?thesis using g Val s None c1 by auto
    next
      case (Some e)
      from Cons.IH[OF u, of "tr1 @ [BaseSetData visData, LogError (CantUpdateData e)]"]
      show ?thesis using g Val s Some c1 by auto
    qed
  qed
qed

lemma refreshLoop_append:
  "refreshLoop env (ticks @ later) (adapter, tr)
     = (case refreshLoop env ticks (adapter, tr) of
          (Running, st) \<Rightarrow> refreshLoop env later st
        | (Panicked, st) \<Rightarrow> (Panicked, st))"
proof (induction ticks arbitrary: adapter tr)
  case Nil
  show ?case by simp
next
  case (Cons httpGet ticks)
  show ?case
    by (simp add: Cons.IH split: prod.splits res.splits option.splits)
qed

text \<open>
  C6: once the ticker runs on an adapter with a sensor URL (every adapter the constructor
  returns has one), the refresh task is still in its loop after any number of
  ticks, whatever the fetches and the calls of \<^verbatim>\<open>setData\<close> returned, and it has performed
  at most one fetch for each tick. On a further tick at which the fetch fails, the error
  is logged and the task goes on with the adapter unchanged; on one at which \<^verbatim>\<open>setData\<close>
  fails, the error is logged and the task goes on.
\<close>

theorem processData_survives_errors:
  assumes "0 < sint (tickerInterval adapter)"
    and "sensorURL adapter = Some u"
  shows "\<exists>a1 tr1.
     processData env ticks (adapter, tr) = (Running, a1, tr1) \<and>
     length (filter isHttpGet tr1) \<le> length (filter isHttpGet tr) + length ticks \<and>
     (\<forall>httpGet e tr2.
        getDataFromSensorEmulator env httpGet a1 tr1 = (Fail e, tr2) \<longrightarrow>
        processData env (ticks @ [httpGet]) (adapter, tr)
          = (Running, a1, tr2 @ [LogError (CantReadData e)])) \<and>
     (\<forall>httpGet visData tr2 e base.
        getDataFromSensorEmulator env httpGet a1 tr1 = (Val visData, tr2) \<and>
        setData env (baseAdapter a1) visData = (Some e, base) \<longrightarrow>
        processData env (ticks @ [httpGet]) (adapter, tr)
          = (Running, a1\<lparr>baseAdapter := base\<rparr>,
             tr2 @ [BaseSetData visData, LogError (CantUpdateData e)]))"
proof -
  from refreshLoop_running[OF assms(2), of env ticks tr]
  obtain a1 tr1 where run: "refreshLoop env ticks (adapter, tr) = (Running, a1, tr1)"
    and cnt: "length (filter isHttpGet tr1) \<le> length (filter isHttpGet tr) + length ticks"
    by blast
  have pd: "processData env ts (adapter, tr) = refreshLoop env ts (adapter, tr)" for ts
    using assms(1) by (simp add: processData_def)
  have "processData env (ticks @ [httpGet]) (adapter, tr)
          = (Running, a1, tr2 @ [LogError (CantReadData e)])"
    if "getDataFromSensorEmulator env httpGet a1 tr1 = (Fail e, tr2)" for httpGet e tr2
    using that by (simp add: pd refreshLoop_append run)
  moreover have "processData env (ticks @ [httpGet]) (adapter, tr)
          = (Running, a1\<lparr>baseAdapter := base\<rparr>,
             tr2 @ [BaseSetData visData, LogError (CantUpdateData e)])"
    if "getDataFromSensorEmulator env httpGet a1 tr1 = (Val visData, tr2)"
      and "setData env (baseAdapter a1) visData = (Some e, base)"
    for httpGet visData tr2 e base
    using that by (simp add: pd refreshLoop_append run)
  ultimately show ?thesis using run cnt pd by auto
qed

theorem processData_survives_errors_witness:
  "0 < sint (tickerInterval exampleAdapter)
   \<and> sensorURL exampleAdapter = Some (URL ''http://sensor:8800/'')
   \<and> processData exampleEnv [exampleDown, exampleGet] (exampleAdapter, [])
      = (Running, exampleAdapter,
         [HttpGet ''http://sensor:8800/stats'',
          LogError (CantReadData (LibError ''connection refused'')),
          HttpGet ''http://sensor:8800/stats'',
          BaseSetData (parseNode ''Signal.Emulator'' exampleStats),
          LogError (CantUpdateData (LibError ''path not found: Signal.Emulator.speed''))])"
proof -
  have i: "0 < sint (tickerInterval exampleAdapter)"
    by (simp add: tickerInterval_def exampleAdapter_def)
  have u: "sensorURL exampleAdapter = Some (URL ''http://sensor:8800/'')"
    by (simp add: exampleAdapter_def)
  have g1: "getDataFromSensorEmulator exampleEnv exampleDown exampleAdapter []
              = (Fail (LibError ''connection refused''), [HttpGet ''http://sensor:8800/stats''])"
    by (simp add: getDataFromSensorEmulator_def exampleEnv_def exampleDown_def exampleAdapter_def)
  have g2: "getDataFromSensorEmulator exampleEnv exampleGet exampleAdapter tr
              = (Val (parseNode ''Signal.Emulator'' exampleStats),
                 tr @ [HttpGet ''http://sensor:8800/stats''])" for tr
    unfolding exampleAdapter_def by (rule example_get)
  have s: "setData exampleEnv (baseAdapter exampleAdapter) (parseNode ''Signal.Emulator'' exampleStats)
              = (Some (LibError ''path not found: Signal.Emulator.speed''), baseAdapter exampleAdapter)"
    by (simp add: exampleEnv_def exampleSetData_def example_parse exampleAdapter_def)
  from processData_survives_errors[OF i u, of exampleEnv "[exampleDown]" "[]"]
  show ?thesis
    using i u g1 g2 s by (simp add: processData_def)
qed

end
